theory Spec2Isabelle
  imports Main "HOL-Library.Sublist"
begin

section \<open>Data model\<close>

text \<open>
  A dependency fact is a row \<open>(servicename, dependency, version)\<close> of the table
  \<open>service_dependencies\<close>; all three columns are text. A dependent is the pair
  \<open>(servicename, version)\<close> kept in the reverse graph.
\<close>

type_synonym fact = "string \<times> string \<times> string"
type_synonym dependent = "string \<times> string"

text \<open>
  The two Python dictionaries of \<open>list.py\<close>: \<open>rev_graph\<close> maps a dependency to the
  list of its dependents, \<open>direct\<close> maps a service to the set of its dependencies.
\<close>

type_synonym rev_graph = "string \<rightharpoonup> dependent list"
type_synonym direct_map = "string \<rightharpoonup> string set"

text \<open>\<open>d.get(k, default)\<close>: the stored value, or the default when the key is absent.\<close>

definition dict_get :: "('k \<rightharpoonup> 'v) \<Rightarrow> 'k \<Rightarrow> 'v \<Rightarrow> 'v" where
  "dict_get m k dflt = (case m k of None \<Rightarrow> dflt | Some v \<Rightarrow> v)"

section \<open>list.py: the graph builder\<close>

text \<open>
  \<open>build_reverse_graph\<close>: the loop body is
  \<open>rev_graph.setdefault(dep, []).append((svc, ver))\<close>, so the list stored under
  \<open>dep\<close> (the empty list when the key is new) grows by one pair at its end.
\<close>

fun rev_graph_loop :: "rev_graph \<Rightarrow> fact list \<Rightarrow> rev_graph" where
  "rev_graph_loop g [] = g"
| "rev_graph_loop g ((svc, dep, ver) # rows) =
     rev_graph_loop (g(dep \<mapsto> dict_get g dep [] @ [(svc, ver)])) rows"

definition build_reverse_graph :: "fact list \<Rightarrow> rev_graph" where
  "build_reverse_graph rows = rev_graph_loop Map.empty rows"

text \<open>
  \<open>build_direct_map\<close>: the loop body is \<open>direct.setdefault(svc, set()).add(dep)\<close>;
  the version is dropped.
\<close>

fun direct_map_loop :: "direct_map \<Rightarrow> fact list \<Rightarrow> direct_map" where
  "direct_map_loop m [] = m"
| "direct_map_loop m ((svc, dep, ver) # rows) =
     direct_map_loop (m(svc \<mapsto> insert dep (dict_get m svc {}))) rows"

definition build_direct_map :: "fact list \<Rightarrow> direct_map" where
  "build_direct_map rows = direct_map_loop Map.empty rows"

section \<open>list.py: the upstream resolver\<close>

text \<open>The set comprehension \<open>{dep for dep, _ in candidates}\<close>, element by element.\<close>

fun candidate_names_loop :: "string set \<Rightarrow> dependent list \<Rightarrow> string set" where
  "candidate_names_loop acc [] = acc"
| "candidate_names_loop acc ((dep, ver) # cs) = candidate_names_loop (insert dep acc) cs"

text \<open>
  The \<open>for dep, ver in candidates\<close> loop of \<open>compute_immediate_upstream\<close>: a
  non-empty intersection is truthy and takes the \<open>continue\<close>; otherwise the pair is
  appended to \<open>immediate\<close>.
\<close>

fun immediate_loop ::
  "direct_map \<Rightarrow> string set \<Rightarrow> dependent list \<Rightarrow> dependent list \<Rightarrow> dependent list" where
  "immediate_loop direct_map candidate_names immediate [] = immediate"
| "immediate_loop direct_map candidate_names immediate ((dep, ver) # cs) =
     (if dict_get direct_map dep {} \<inter> candidate_names \<noteq> {}
      then immediate_loop direct_map candidate_names immediate cs
      else immediate_loop direct_map candidate_names (immediate @ [(dep, ver)]) cs)"

definition compute_immediate_upstream ::
  "string \<Rightarrow> rev_graph \<Rightarrow> direct_map \<Rightarrow> dependent list" where
  "compute_immediate_upstream service rev_graph direct_map =
     (let candidates = dict_get rev_graph service [];
          candidate_names = candidate_names_loop {} candidates
      in immediate_loop direct_map candidate_names [] candidates)"

text \<open>
  The branch \<open>if args.service:\<close> of \<open>main\<close> up to the assignment of \<open>results\<close>:
  both maps are built from the rows, \<open>upstream\<close> is the reverse lookup, and
  \<open>--reduce\<close> selects the reduced list.
\<close>

definition upstream_results :: "string \<Rightarrow> bool \<Rightarrow> fact list \<Rightarrow> dependent list" where
  "upstream_results input_service reduce rows =
     (let rev_graph = build_reverse_graph rows;
          direct_map = build_direct_map rows;
          upstream = dict_get rev_graph input_service []
      in if reduce then compute_immediate_upstream input_service rev_graph direct_map
         else upstream)"

section \<open>The fact store\<close>

text \<open>
  The SQLite file \<open>dependencies.db\<close> as both scripts see it. Opening it can fail, the
  table \<open>service_dependencies\<close> may not exist yet, or it holds rows
  \<open>(id, servicename, dependency, version)\<close>. The list of rows stands in the order in
  which a full scan returns them; no result below depends on where a new row is placed.
  The text values come from Python strings, so no column is NULL.
\<close>

type_synonym db_row = "nat \<times> fact"

datatype store = Unopenable | NoTable | Table "db_row list"

text \<open>The exception of the \<open>sqlite3\<close> module, with its message.\<close>

datatype sqlite_error = OperationalError string

fun error_text :: "sqlite_error \<Rightarrow> string" where
  "error_text (OperationalError msg) = msg"

text \<open>
  \<open>sqlite3.connect(db_filename)\<close> raises when the file cannot be opened; otherwise the
  connection gives access to the table, if there is one.
\<close>

definition connect :: "store \<Rightarrow> sqlite_error + db_row list option" where
  "connect st =
     (case st of
        Unopenable \<Rightarrow> Inl (OperationalError ''unable to open database file'')
      | NoTable \<Rightarrow> Inr None
      | Table tbl \<Rightarrow> Inr (Some tbl))"

text \<open>
  \<open>SELECT servicename, dependency, version FROM service_dependencies\<close> followed by
  \<open>fetchall()\<close>: raises when the table does not exist.
\<close>

definition select_all :: "db_row list option \<Rightarrow> sqlite_error + fact list" where
  "select_all conn =
     (case conn of
        None \<Rightarrow> Inl (OperationalError ''no such table: service_dependencies'')
      | Some tbl \<Rightarrow> Inr (map snd tbl))"

text \<open>\<open>load_db\<close> of \<open>list.py\<close>: no \<open>try\<close>, so an exception leaves the function.\<close>

definition load_db :: "store \<Rightarrow> sqlite_error + fact list" where
  "load_db st =
     (case connect st of
        Inl e \<Rightarrow> Inl e
      | Inr conn \<Rightarrow> select_all conn)"

section \<open>list.py: main\<close>

text \<open>
  The parsed command line. \<open>--service\<close> is optional; \<open>if args.service:\<close> is false
  for a missing and for an empty name.
\<close>

record args =
  args_service :: "string option"
  args_reduce :: bool
  args_machine :: bool

text \<open>
  What a run of \<open>main\<close> does: it returns after printing lines, or an exception
  leaves it uncaught.
\<close>

datatype outcome = Returned "string list" | Raised sqlite_error

text \<open>The \<open>else\<close> branch of \<open>main\<close>: every row, in either format.\<close>

definition list_all_rows :: "bool \<Rightarrow> fact list \<Rightarrow> string list" where
  "list_all_rows machine rows =
     (if machine then map (\<lambda>(svc, dep, ver). svc @ '','' @ dep @ '','' @ ver) rows
      else ''servicename, dependency, version''
           # map (\<lambda>(svc, dep, ver). svc @ '', '' @ dep @ '', '' @ ver) rows)"

definition list_main :: "args \<Rightarrow> store \<Rightarrow> outcome" where
  "list_main a st =
     (case load_db st of
        Inl e \<Rightarrow> Raised e
      | Inr rows \<Rightarrow>
          if rows = [] then Returned [''No dependency data found in the DB.'']
          else (case args_service a of
                  None \<Rightarrow> Returned (list_all_rows (args_machine a) rows)
                | Some input_service \<Rightarrow>
                    if input_service = [] then Returned (list_all_rows (args_machine a) rows)
                    else
                      (let results = upstream_results input_service (args_reduce a) rows
                       in if args_machine a
                          then Returned (map (\<lambda>(dep, ver). dep @ '','' @ ver) results)
                          else Returned (''servicename, dependency, version''
                                 # map (\<lambda>(dep, ver). input_service @ '', '' @ dep @ '', '' @ ver)
                                     results))))"

section \<open>dependencies.py: writing and printing the store\<close>

text \<open>
  \<open>id INTEGER PRIMARY KEY AUTOINCREMENT\<close>: a new row gets an id above every id in
  the table (no row is ever deleted).
\<close>

definition next_id :: "db_row list \<Rightarrow> nat" where
  "next_id tbl = Suc (fold max (map fst tbl) 0)"

text \<open>
  \<open>INSERT OR IGNORE\<close> under \<open>UNIQUE(servicename, dependency, version)\<close>: a triple
  already in the table is skipped, any other is stored as a new row.
\<close>

definition insert_or_ignore :: "fact \<Rightarrow> db_row list \<Rightarrow> db_row list" where
  "insert_or_ignore f tbl =
     (if f \<in> set (map snd tbl) then tbl else tbl @ [(next_id tbl, f)])"

text \<open>The loop \<open>for dep, version in dependencies\<close>.\<close>

fun insert_loop :: "string \<Rightarrow> (string \<times> string) list \<Rightarrow> db_row list \<Rightarrow> db_row list" where
  "insert_loop service_name [] tbl = tbl"
| "insert_loop service_name ((dep, version) # ds) tbl =
     insert_loop service_name ds (insert_or_ignore (service_name, dep, version) tbl)"

text \<open>\<open>CREATE TABLE IF NOT EXISTS\<close>: an existing table is kept as it is.\<close>

definition create_table_if_not_exists :: "db_row list option \<Rightarrow> db_row list" where
  "create_table_if_not_exists conn = (case conn of None \<Rightarrow> [] | Some tbl \<Rightarrow> tbl)"

text \<open>
  \<open>save_dependencies_to_db\<close> returns the store after the call and the lines printed.
  The whole body is inside \<open>try\<close>: an exception is printed and nothing is committed.
\<close>

definition save_dependencies_to_db ::
  "string \<Rightarrow> (string \<times> string) list \<Rightarrow> store \<Rightarrow> store \<times> string list" where
  "save_dependencies_to_db service_name dependencies st =
     (case connect st of
        Inl e \<Rightarrow> (st, [''Error saving to DB: '' @ error_text e])
      | Inr conn \<Rightarrow>
          (Table (insert_loop service_name dependencies (create_table_if_not_exists conn)),
           [''Dependencies for '' @ service_name @ '' saved successfully to the database.'']))"

text \<open>
  \<open>print_db_contents\<close> runs the same query as \<open>load_db\<close>, inside \<open>try\<close>: the lines
  printed.
\<close>

definition print_db_contents :: "store \<Rightarrow> string list" where
  "print_db_contents st =
     (case load_db st of
        Inl e \<Rightarrow> [''Error reading from DB: '' @ error_text e]
      | Inr rows \<Rightarrow>
          ''servicename, dependency, version''
          # ''---------------------------------''
          # map (\<lambda>(svc, dep, ver). svc @ '', '' @ dep @ '', '' @ ver) rows)"

section \<open>Notions used in the statements\<close>

text \<open>The facts naming a dependency, as dependents, in input order.\<close>

definition facts_naming :: "string \<Rightarrow> fact list \<Rightarrow> dependent list" where
  "facts_naming dep rows =
     map (\<lambda>(svc, d, ver). (svc, ver)) (filter (\<lambda>(svc, d, ver). d = dep) rows)"

text \<open>The dependencies recorded for a service, as a set.\<close>

definition deps_of :: "string \<Rightarrow> fact list \<Rightarrow> string set" where
  "deps_of service rows =
     set (map (\<lambda>(svc, d, ver). d) (filter (\<lambda>(svc, d, ver). svc = service) rows))"

text \<open>The uniqueness constraint of the table, as a property of a store.\<close>

definition unique_ok :: "store \<Rightarrow> bool" where
  "unique_ok st = (case st of Table tbl \<Rightarrow> distinct (map snd tbl) | _ \<Rightarrow> True)"

text \<open>The rows of a store that hold a given triple.\<close>

definition rows_with :: "fact \<Rightarrow> store \<Rightarrow> db_row list" where
  "rows_with f st = (case st of Table tbl \<Rightarrow> filter (\<lambda>r. snd r = f) tbl | _ \<Rightarrow> [])"

text \<open>One more run of the extractor that found the single dependency \<open>(d, v)\<close>.\<close>

definition save_once :: "string \<Rightarrow> string \<Rightarrow> string \<Rightarrow> store \<Rightarrow> store" where
  "save_once s d v st = fst (save_dependencies_to_db s [(d, v)] st)"

lemmas eval_defs = upstream_results_def build_reverse_graph_def build_direct_map_def
  compute_immediate_upstream_def dict_get_def Let_def

section \<open>The graph builder keeps input order\<close>

lemma facts_naming_Nil: "facts_naming dep [] = []"
  by (simp add: facts_naming_def)

lemma facts_naming_Cons:
  "facts_naming dep ((svc, d, ver) # rows) =
     (if d = dep then (svc, ver) # facts_naming dep rows else facts_naming dep rows)"
  by (simp add: facts_naming_def)

lemma rev_graph_loop_lookup:
  "rev_graph_loop g rows dep =
     (if facts_naming dep rows = [] then g dep
      else Some (dict_get g dep [] @ facts_naming dep rows))"
proof (induction rows arbitrary: g)
  case Nil
  show ?case by (simp add: facts_naming_Nil)
next
  case (Cons row rows)
  obtain svc d ver where row: "row = (svc, d, ver)"
    by (cases row) auto
  show ?case
    unfolding row rev_graph_loop.simps Cons.IH facts_naming_Cons
    by (simp add: dict_get_def)
qed

text \<open>
  C4. For every input sequence of facts and every dependency key, the list stored in
  the reverse graph under that key consists of exactly the facts naming that dependency,
  as (dependent, version) pairs in input order; the key is absent when no fact names it.
  The map is a function of the input sequence alone, so every rebuild gives the same map.
\<close>

theorem build_reverse_graph_input_order:
  "build_reverse_graph rows dep =
     (if facts_naming dep rows = [] then None else Some (facts_naming dep rows))"
  by (simp add: build_reverse_graph_def rev_graph_loop_lookup dict_get_def)

section \<open>The forward map\<close>

lemma deps_of_Nil: "deps_of service [] = {}"
  by (simp add: deps_of_def)

lemma deps_of_Cons:
  "deps_of service ((svc, d, ver) # rows) =
     (if svc = service then insert d (deps_of service rows) else deps_of service rows)"
  by (simp add: deps_of_def)

lemma direct_map_loop_lookup:
  "direct_map_loop m rows service =
     (if deps_of service rows = {} then m service
      else Some (dict_get m service {} \<union> deps_of service rows))"
proof (induction rows arbitrary: m)
  case Nil
  show ?case by (simp add: deps_of_Nil)
next
  case (Cons row rows)
  obtain svc d ver where row: "row = (svc, d, ver)"
    by (cases row) auto
  show ?case
    unfolding row direct_map_loop.simps Cons.IH deps_of_Cons
    by (auto simp add: dict_get_def)
qed

lemma build_direct_map_lookup:
  "build_direct_map rows service =
     (if deps_of service rows = {} then None else Some (deps_of service rows))"
  by (simp add: build_direct_map_def direct_map_loop_lookup dict_get_def)

lemma forward_set_deps_of: "dict_get (build_direct_map rows) service {} = deps_of service rows"
  by (simp add: dict_get_def build_direct_map_lookup)

lemma raw_lookup_facts_naming:
  "dict_get (build_reverse_graph rows) target [] = facts_naming target rows"
  by (simp add: dict_get_def build_reverse_graph_def rev_graph_loop_lookup)

text \<open>
  When both maps come from the same rows, a candidate of a target has the target in
  its forward set: the fact that made it a candidate is also one of its own facts.
\<close>

lemma candidate_depends_on_target:
  "(d, v) \<in> set (facts_naming target rows) \<Longrightarrow> target \<in> deps_of d rows"
  by (force simp add: facts_naming_def deps_of_def)

section \<open>The reduction as a filter\<close>

lemma candidate_names_loop_eq: "candidate_names_loop acc cs = acc \<union> fst ` set cs"
proof (induction cs arbitrary: acc)
  case Nil
  show ?case by simp
next
  case (Cons c cs)
  obtain dep ver where c: "c = (dep, ver)"
    by (cases c) auto
  show ?case
    unfolding c candidate_names_loop.simps Cons.IH by simp
qed

lemma immediate_loop_eq:
  "immediate_loop direct_map names immediate cs =
     immediate @ filter (\<lambda>(dep, ver). dict_get direct_map dep {} \<inter> names = {}) cs"
proof (induction cs arbitrary: immediate)
  case Nil
  show ?case by simp
next
  case (Cons c cs)
  obtain dep ver where c: "c = (dep, ver)"
    by (cases c) auto
  show ?case
    unfolding c immediate_loop.simps Cons.IH by simp
qed

lemma compute_immediate_upstream_filter:
  "compute_immediate_upstream service rev_graph direct_map =
     filter (\<lambda>(dep, ver). dict_get direct_map dep {} \<inter> fst ` set (dict_get rev_graph service []) = {})
       (dict_get rev_graph service [])"
  by (simp add: compute_immediate_upstream_def Let_def candidate_names_loop_eq immediate_loop_eq)

lemma upstream_results_raw:
  "upstream_results target False rows = dict_get (build_reverse_graph rows) target []"
  by (simp add: upstream_results_def Let_def)

lemma upstream_results_reduce:
  "upstream_results target True rows =
     compute_immediate_upstream target (build_reverse_graph rows) (build_direct_map rows)"
  by (simp add: upstream_results_def Let_def)

text \<open>
  C1. In the reduced mode a candidate taken from the target's raw reverse lookup is kept
  exactly when its forward dependency set is disjoint from the set of candidate names;
  the kept candidates stand in candidate order with their versions. As an equation: the
  reduced result is the raw list filtered by that test.
\<close>

theorem immediate_mode_is_filter:
  "upstream_results target True rows =
     filter (\<lambda>(d, v). dict_get (build_direct_map rows) d {}
                        \<inter> fst ` set (upstream_results target False rows) = {})
       (upstream_results target False rows)"
  by (simp only: upstream_results_reduce upstream_results_raw compute_immediate_upstream_filter)

text \<open>
  C3. For every fact list and target, the reduced result is a subsequence of the raw
  result.
\<close>

theorem immediate_subseq_raw:
  "subseq (upstream_results target True rows) (upstream_results target False rows)"
  by (simp only: upstream_results_reduce upstream_results_raw compute_immediate_upstream_filter
        subseq_filter_left)

text \<open>
  C5. The raw mode returns exactly the entry of the reverse graph for the target, and
  the empty list when the target has no entry; nothing is filtered, so the result is
  every fact naming the target.
\<close>

theorem raw_mode_is_entry:
  "upstream_results target False rows =
     (case build_reverse_graph rows target of None \<Rightarrow> [] | Some entry \<Rightarrow> entry)
   \<and> upstream_results target False rows = facts_naming target rows"
  by (simp add: upstream_results_raw raw_lookup_facts_naming [symmetric] dict_get_def)

section \<open>A target without dependents\<close>

text \<open>
  C6. When the target has no entry in the reverse graph, the raw and the reduced mode
  both return the empty list; in particular both do so for every target when there are
  no facts at all. Neither lookup can raise: both use \<open>get\<close> with a default.
\<close>

theorem absent_target_empty_result:
  "(build_reverse_graph rows target = None \<longrightarrow>
      upstream_results target False rows = [] \<and> upstream_results target True rows = [])
   \<and> upstream_results target False [] = [] \<and> upstream_results target True [] = []"
  by (simp add: upstream_results_raw upstream_results_reduce compute_immediate_upstream_filter
        dict_get_def build_reverse_graph_def)

theorem absent_target_empty_result_witness:
  "build_reverse_graph [(''A'', ''X'', ''1.0'')] ''Z'' = None
   \<and> upstream_results ''Z'' False [(''A'', ''X'', ''1.0'')] = []
   \<and> upstream_results ''Z'' True [(''A'', ''X'', ''1.0'')] = []"
proof -
  have h: "build_reverse_graph [(''A'', ''X'', ''1.0'')] ''Z'' = None"
    by (simp add: build_reverse_graph_def)
  show ?thesis
    using h absent_target_empty_result [of "[(''A'', ''X'', ''1.0'')]" "''Z''"] by blast
qed

text \<open>
  In \<open>main\<close> the same target gives a normal return: no data line in either format.
  With no rows at all \<open>main\<close> returns before it resolves anything.
\<close>

lemma list_main_absent_target:
  assumes "load_db st = Inr rows" and "rows \<noteq> []" and "target \<noteq> []"
    and "build_reverse_graph rows target = None"
  shows "list_main \<lparr>args_service = Some target, args_reduce = r, args_machine = m\<rparr> st
         = Returned (if m then [] else [''servicename, dependency, version''])"
proof -
  have "upstream_results target r rows = []"
    using assms(4)
    by (cases r) (simp_all add: upstream_results_raw upstream_results_reduce
        compute_immediate_upstream_filter dict_get_def)
  with assms(1-3) show ?thesis
    by (simp add: list_main_def Let_def)
qed

lemma list_main_no_rows:
  "list_main a (Table []) = Returned [''No dependency data found in the DB.'']"
  by (simp add: list_main_def load_db_def connect_def select_all_def)

section \<open>The test reads the name only\<close>

text \<open>
  C7. Two candidates of the raw list with the same service name (whatever their
  versions, in particular different ones) are both kept or both dropped by the reduced
  mode.
\<close>

theorem same_name_same_classification:
  assumes "(d, v1) \<in> set (upstream_results target False rows)"
    and "(d, v2) \<in> set (upstream_results target False rows)"
  shows "(d, v1) \<in> set (upstream_results target True rows)
         \<longleftrightarrow> (d, v2) \<in> set (upstream_results target True rows)"
  using assms
  by (simp add: upstream_results_raw upstream_results_reduce compute_immediate_upstream_filter)

theorem same_name_same_classification_witness:
  "(''A'', ''1.0'') \<in> set (upstream_results ''X'' False [(''A'', ''X'', ''1.0''), (''A'', ''X'', ''2.0'')])
   \<and> (''A'', ''2.0'') \<in> set (upstream_results ''X'' False [(''A'', ''X'', ''1.0''), (''A'', ''X'', ''2.0'')])
   \<and> ((''A'', ''1.0'') \<in> set (upstream_results ''X'' True [(''A'', ''X'', ''1.0''), (''A'', ''X'', ''2.0'')])
        \<longleftrightarrow> (''A'', ''2.0'') \<in> set (upstream_results ''X'' True [(''A'', ''X'', ''1.0''), (''A'', ''X'', ''2.0'')]))"
proof -
  have h1: "(''A'', ''1.0'') \<in> set (upstream_results ''X'' False [(''A'', ''X'', ''1.0''), (''A'', ''X'', ''2.0'')])"
    by (simp add: eval_defs)
  have h2: "(''A'', ''2.0'') \<in> set (upstream_results ''X'' False [(''A'', ''X'', ''1.0''), (''A'', ''X'', ''2.0'')])"
    by (simp add: eval_defs)
  show ?thesis
    using h1 h2 same_name_same_classification [OF h1 h2] by blast
qed

text \<open>
  C10. A candidate without an entry in the forward map is kept by
  \<open>compute_immediate_upstream\<close>: the missing entry counts as the empty set. The
  statement is about the function with any two maps; when \<open>main\<close> builds both maps
  from the same rows, every candidate has an entry (\<open>candidate_depends_on_target\<close>).
\<close>

theorem no_forward_entry_is_immediate:
  assumes "(d, v) \<in> set (dict_get rev_graph service [])"
    and "direct_map d = None"
  shows "(d, v) \<in> set (compute_immediate_upstream service rev_graph direct_map)"
  using assms
  by (simp add: compute_immediate_upstream_filter) (simp add: dict_get_def)

theorem no_forward_entry_is_immediate_witness:
  "(''A'', ''1.0'') \<in> set (dict_get [''X'' \<mapsto> [(''A'', ''1.0'')]] ''X'' [])
   \<and> (Map.empty :: direct_map) ''A'' = None
   \<and> (''A'', ''1.0'') \<in> set (compute_immediate_upstream ''X'' [''X'' \<mapsto> [(''A'', ''1.0'')]] Map.empty)"
proof -
  have h1: "(''A'', ''1.0'') \<in> set (dict_get [''X'' \<mapsto> [(''A'', ''1.0'')]] ''X'' [])"
    by (simp add: dict_get_def)
  have h2: "(Map.empty :: direct_map) ''A'' = None"
    by simp
  show ?thesis
    using h1 h2 no_forward_entry_is_immediate [OF h1 h2] by blast
qed

section \<open>Which candidates are dropped\<close>

text \<open>
  A candidate is dropped exactly when some candidate name, its own included, is among
  its dependencies. With a candidate that does not depend on itself this is the same as
  depending on another candidate.
\<close>

lemma reduce_filter_deps_of:
  "upstream_results target True rows =
     filter (\<lambda>(d, v). deps_of d rows \<inter> fst ` set (upstream_results target False rows) = {})
       (upstream_results target False rows)"
  by (simp only: upstream_results_reduce upstream_results_raw compute_immediate_upstream_filter
        forward_set_deps_of)

lemma excluded_iff_depends_on_candidate:
  assumes "(D, v) \<in> set (upstream_results target False rows)"
  shows "(D, v) \<notin> set (upstream_results target True rows)
         \<longleftrightarrow> (\<exists>E \<in> fst ` set (upstream_results target False rows). E \<in> deps_of D rows)"
proof -
  have "(D, v) \<in> set (upstream_results target True rows)
        \<longleftrightarrow> deps_of D rows \<inter> fst ` set (upstream_results target False rows) = {}"
    using assms by (subst reduce_filter_deps_of) simp
  then show ?thesis
    by blast
qed

lemma other_element_iff:
  "D \<notin> A \<Longrightarrow> (\<exists>E \<in> S. E \<in> A) \<longleftrightarrow> (\<exists>E. E \<noteq> D \<and> E \<in> S \<and> E \<in> A)"
  by auto

lemma excluded_iff_other_candidate:
  assumes "(D, v) \<in> set (upstream_results target False rows)" and "D \<notin> deps_of D rows"
  shows "(D, v) \<notin> set (upstream_results target True rows)
         \<longleftrightarrow> (\<exists>E. E \<noteq> D \<and> E \<in> fst ` set (upstream_results target False rows)
                  \<and> E \<in> deps_of D rows)"
proof -
  have "(D, v) \<notin> set (upstream_results target True rows)
        \<longleftrightarrow> (\<exists>E \<in> fst ` set (upstream_results target False rows). E \<in> deps_of D rows)"
    by (rule excluded_iff_depends_on_candidate [OF assms(1)])
  also have "\<dots> \<longleftrightarrow> (\<exists>E. E \<noteq> D \<and> E \<in> fst ` set (upstream_results target False rows)
                  \<and> E \<in> deps_of D rows)"
    by (rule other_element_iff [OF assms(2)])
  finally show ?thesis .
qed

lemma disjoint_no_common: "A \<inter> B = {} \<Longrightarrow> E \<in> A \<Longrightarrow> E \<in> B \<Longrightarrow> False"
  by auto

lemma other_candidate_excludes:
  assumes "E \<noteq> D" and "E \<in> fst ` set (upstream_results target False rows)"
    and "E \<in> deps_of D rows"
  shows "(D, v) \<notin> set (upstream_results target True rows)"
proof
  assume "(D, v) \<in> set (upstream_results target True rows)"
  then have "deps_of D rows \<inter> fst ` set (upstream_results target False rows) = {}"
    by (subst (asm) reduce_filter_deps_of) simp
  then show False
    using assms(3) assms(2) by (rule disjoint_no_common)
qed

text \<open>
  C2. The specification: a candidate \<open>D\<close> is dropped exactly when it depends on another
  candidate \<open>E \<noteq> D\<close>; the docstring of \<open>compute_immediate_upstream\<close> says the same
  ("none of the other dependents appear in D's direct dependencies"). The code compares
  with all candidate names. For the facts \<open>(A, X, 1.0)\<close> and \<open>(A, A, 1.0)\<close> and target
  \<open>X\<close>, the only candidate is \<open>A\<close>, no other candidate is among its dependencies, and
  the reduced result is nevertheless empty.
\<close>

theorem self_dependency_excludes_candidate:
  "upstream_results ''X'' False [(''A'', ''X'', ''1.0''), (''A'', ''A'', ''1.0'')] = [(''A'', ''1.0'')]
   \<and> upstream_results ''X'' True [(''A'', ''X'', ''1.0''), (''A'', ''A'', ''1.0'')] = []
   \<and> dict_get (build_direct_map [(''A'', ''X'', ''1.0''), (''A'', ''A'', ''1.0'')]) ''A'' {}
       \<inter> (fst ` set (upstream_results ''X'' False [(''A'', ''X'', ''1.0''), (''A'', ''A'', ''1.0'')])
          - {''A''}) = {}"
  by (simp add: eval_defs)

section \<open>Inserting a fact again\<close>

lemma insert_or_ignore_present:
  "f \<in> set (map snd tbl) \<Longrightarrow> insert_or_ignore f tbl = tbl"
  by (simp add: insert_or_ignore_def)

lemma insert_or_ignore_member: "f \<in> set (map snd (insert_or_ignore f tbl))"
  by (simp add: insert_or_ignore_def)

lemma insert_or_ignore_distinct:
  "distinct (map snd tbl) \<Longrightarrow> distinct (map snd (insert_or_ignore f tbl))"
  by (simp add: insert_or_ignore_def)

lemma insert_loop_distinct:
  "distinct (map snd tbl) \<Longrightarrow> distinct (map snd (insert_loop s ds tbl))"
proof (induction ds arbitrary: tbl)
  case Nil
  then show ?case by simp
next
  case (Cons p ds)
  obtain dep version where p: "p = (dep, version)"
    by (cases p) auto
  show ?case
    unfolding p insert_loop.simps
    by (rule Cons.IH) (rule insert_or_ignore_distinct [OF Cons.prems])
qed

lemma insert_loop_replicate:
  "insert_loop s (replicate (Suc n) (d, v)) tbl = insert_or_ignore (s, d, v) tbl"
proof (induction n arbitrary: tbl)
  case 0
  show ?case by simp
next
  case (Suc n)
  have "insert_loop s (replicate (Suc (Suc n)) (d, v)) tbl
        = insert_loop s (replicate (Suc n) (d, v)) (insert_or_ignore (s, d, v) tbl)"
    by simp
  also have "\<dots> = insert_or_ignore (s, d, v) (insert_or_ignore (s, d, v) tbl)"
    by (rule Suc.IH)
  also have "\<dots> = insert_or_ignore (s, d, v) tbl"
    by (rule insert_or_ignore_present) (rule insert_or_ignore_member)
  finally show ?case .
qed

lemma one_row_of_distinct:
  "distinct (map snd tbl) \<Longrightarrow> f \<in> set (map snd tbl)
   \<Longrightarrow> length (filter (\<lambda>r. snd r = f) tbl) = 1"
proof (induction tbl)
  case Nil
  then show ?case by simp
next
  case (Cons r tbl)
  show ?case
  proof (cases "snd r = f")
    case True
    with Cons.prems have "f \<notin> snd ` set tbl" by auto
    then have "filter (\<lambda>r. snd r = f) tbl = []"
      by (auto simp add: filter_empty_conv)
    with True show ?thesis by simp
  next
    case False
    with Cons show ?thesis by auto
  qed
qed

lemma unique_ok_table: "unique_ok (Table tbl) = distinct (map snd tbl)"
  by (simp add: unique_ok_def)

lemma connect_available:
  "st \<noteq> Unopenable \<Longrightarrow> \<exists>conn. connect st = Inr conn \<and>
     (unique_ok st \<longrightarrow> distinct (map snd (create_table_if_not_exists conn)))"
  by (cases st) (simp_all add: connect_def create_table_if_not_exists_def unique_ok_def)

lemma save_preserves_unique:
  "unique_ok st \<Longrightarrow> unique_ok (fst (save_dependencies_to_db s ds st))"
  by (cases st)
     (simp_all add: save_dependencies_to_db_def connect_def create_table_if_not_exists_def
        unique_ok_def insert_loop_distinct)

lemma save_replicate_one_row:
  assumes "unique_ok st" and "st \<noteq> Unopenable"
  shows "length (rows_with (s, d, v) (fst (save_dependencies_to_db s (replicate (Suc n) (d, v)) st))) = 1"
proof -
  obtain conn where conn: "connect st = Inr conn"
    and dist: "distinct (map snd (create_table_if_not_exists conn))"
    using connect_available [OF assms(2)] assms(1) by blast
  have "fst (save_dependencies_to_db s (replicate (Suc n) (d, v)) st)
        = Table (insert_or_ignore (s, d, v) (create_table_if_not_exists conn))"
    by (simp only: save_dependencies_to_db_def conn insert_loop_replicate sum.case fst_conv)
  moreover have "length (filter (\<lambda>r. snd r = (s, d, v))
                   (insert_or_ignore (s, d, v) (create_table_if_not_exists conn))) = 1"
    by (rule one_row_of_distinct [OF insert_or_ignore_distinct [OF dist] insert_or_ignore_member])
  ultimately show ?thesis
    by (simp add: rows_with_def)
qed

lemma save_once_first:
  assumes "unique_ok st" and "st \<noteq> Unopenable"
  shows "\<exists>tbl. save_once s d v st = Table tbl \<and> distinct (map snd tbl) \<and> (s, d, v) \<in> set (map snd tbl)"
proof -
  obtain conn where conn: "connect st = Inr conn"
    and dist: "distinct (map snd (create_table_if_not_exists conn))"
    using connect_available [OF assms(2)] assms(1) by blast
  have "save_once s d v st = Table (insert_or_ignore (s, d, v) (create_table_if_not_exists conn))"
    by (simp add: save_once_def save_dependencies_to_db_def conn)
  with insert_or_ignore_distinct [OF dist] insert_or_ignore_member show ?thesis
    by blast
qed

lemma save_present_noop:
  assumes "(s, d, v) \<in> set (map snd tbl)"
  shows "save_dependencies_to_db s [(d, v)] (Table tbl) =
           (Table tbl, [''Dependencies for '' @ s @ '' saved successfully to the database.''])"
  using assms
  by (simp add: save_dependencies_to_db_def connect_def create_table_if_not_exists_def
        insert_or_ignore_def)

lemma save_once_present: "(s, d, v) \<in> set (map snd tbl) \<Longrightarrow> save_once s d v (Table tbl) = Table tbl"
  by (simp only: save_once_def save_present_noop fst_conv)

lemma funpow_fixed_point: "f x = x \<Longrightarrow> (f ^^ n) x = x"
  by (induction n) simp_all

lemma save_once_funpow:
  assumes "unique_ok st" and "st \<noteq> Unopenable"
  shows "(save_once s d v ^^ Suc n) st = save_once s d v st"
proof -
  obtain tbl where tbl: "save_once s d v st = Table tbl" and mem: "(s, d, v) \<in> set (map snd tbl)"
    using save_once_first [OF assms] by blast
  have fixed: "save_once s d v (Table tbl) = Table tbl"
    by (rule save_once_present [OF mem])
  have "(save_once s d v ^^ Suc n) st = (save_once s d v ^^ n) (save_once s d v st)"
    by (simp only: funpow_Suc_right o_apply)
  also have "\<dots> = Table tbl"
    unfolding tbl using fixed by (rule funpow_fixed_point [of "save_once s d v" "Table tbl" n])
  finally show ?thesis
    by (simp only: tbl)
qed

text \<open>
  C8. In a store that can be opened and satisfies the uniqueness constraint, inserting
  the triple \<open>(s, d, v)\<close> \<open>N \<ge> 1\<close> times leaves exactly one row with that triple,
  whether by \<open>N\<close> runs with the one dependency or by one run whose list holds it
  \<open>N\<close> times. A further run changes nothing and reports success, not an error.
\<close>

theorem idempotent_insertion:
  assumes "unique_ok st" and "st \<noteq> Unopenable" and "0 < N"
  shows "length (rows_with (s, d, v) ((save_once s d v ^^ N) st)) = 1
       \<and> length (rows_with (s, d, v) (fst (save_dependencies_to_db s (replicate N (d, v)) st))) = 1
       \<and> save_dependencies_to_db s [(d, v)] ((save_once s d v ^^ N) st)
          = ((save_once s d v ^^ N) st,
             [''Dependencies for '' @ s @ '' saved successfully to the database.''])"
proof -
  obtain n where N: "N = Suc n"
    using assms(3) by (cases N) auto
  obtain tbl where tbl: "save_once s d v st = Table tbl"
    and dist: "distinct (map snd tbl)" and mem: "(s, d, v) \<in> set (map snd tbl)"
    using save_once_first [OF assms(1,2)] by blast
  have pow: "(save_once s d v ^^ N) st = Table tbl"
    unfolding N by (simp only: save_once_funpow [OF assms(1,2)] tbl)
  have one: "length (rows_with (s, d, v) ((save_once s d v ^^ N) st)) = 1"
    unfolding pow by (simp add: rows_with_def one_row_of_distinct [OF dist mem])
  have rep: "length (rows_with (s, d, v)
               (fst (save_dependencies_to_db s (replicate N (d, v)) st))) = 1"
    unfolding N by (rule save_replicate_one_row [OF assms(1,2)])
  have noop: "save_dependencies_to_db s [(d, v)] ((save_once s d v ^^ N) st)
          = ((save_once s d v ^^ N) st,
             [''Dependencies for '' @ s @ '' saved successfully to the database.''])"
    unfolding pow by (rule save_present_noop [OF mem])
  from one rep noop show ?thesis
    by (intro conjI)
qed

theorem idempotent_insertion_witness:
  "unique_ok NoTable \<and> NoTable \<noteq> Unopenable \<and> (0::nat) < 3
   \<and> length (rows_with (''service-c'', ''service-a'', ''1.0.0'')
        ((save_once ''service-c'' ''service-a'' ''1.0.0'' ^^ 3) NoTable)) = 1
   \<and> length (rows_with (''service-c'', ''service-a'', ''1.0.0'')
        (fst (save_dependencies_to_db ''service-c'' (replicate 3 (''service-a'', ''1.0.0'')) NoTable))) = 1"
proof -
  have h1: "unique_ok NoTable"
    by (simp add: unique_ok_def)
  have h2: "NoTable \<noteq> Unopenable"
    by simp
  have h3: "(0::nat) < 3"
    by simp
  show ?thesis
    using h1 h2 h3
      idempotent_insertion [OF h1 h2 h3, of "''service-c''" "''service-a''" "''1.0.0''"]
    by blast
qed

section \<open>A store that cannot be read\<close>

text \<open>
  C9. The specification: a failure to open or read the store during the full scan is
  caught and turned into a message. \<open>load_db\<close> and \<open>main\<close> of \<open>list.py\<close> have no
  \<open>try\<close>: with a missing table or a file that cannot be opened, the exception leaves
  \<open>main\<close>. \<open>print_db_contents\<close> of \<open>dependencies.py\<close> runs the same query and does
  print a message.
\<close>

theorem load_failure_leaves_main_uncaught:
  "list_main a NoTable = Raised (OperationalError ''no such table: service_dependencies'')
   \<and> list_main a Unopenable = Raised (OperationalError ''unable to open database file'')
   \<and> print_db_contents NoTable = [''Error reading from DB: no such table: service_dependencies'']
   \<and> print_db_contents Unopenable = [''Error reading from DB: unable to open database file'']"
  by (simp add: list_main_def print_db_contents_def load_db_def connect_def select_all_def)

end
